theory Spec2Isabelle
  imports Main "HOL-Library.Word"
begin

section \<open>Data model of the lease controller\<close>

text \<open>
  A Go \<^verbatim>\<open>error\<close> is represented by its message (the value of \<^verbatim>\<open>Error()\<close>);
  a nil error is \<^term>\<open>None\<close>.  A \<^verbatim>\<open>net.IP\<close>, a \<^verbatim>\<open>net.IPMask\<close> and a
  \<^verbatim>\<open>net.HardwareAddr\<close> are byte slices, a \<^verbatim>\<open>time.Duration\<close> is a number of
  nanoseconds.
\<close>

type_synonym error = string
type_synonym IP = "8 word list"
type_synonym IPMask = "8 word list"
type_synonym IPNet = "IP \<times> IPMask"
type_synonym HardwareAddr = "8 word list"
type_synonym Duration = int

text \<open>\<^verbatim>\<open>controller.Lease\<close>, with the three fields that \<^verbatim>\<open>tryAcquireLease\<close> fills in.\<close>

record Lease =
  UnderlayIP :: string
  OverlaySubnet :: string
  OverlayHardwareAddr :: string

text \<open>
  The collaborators are Go interfaces.  Each method is a function of a hidden world
  \<open>'w\<close> (the database, the clock, other hosts writing to the same store), returning the
  results of the Go method and the world after the call.  A method with results
  \<^verbatim>\<open>(T, error)\<close> returns both, as Go does: the caller decides what it checks.
  The method \<^verbatim>\<open>All\<close> is named \<open>All_db\<close>, since \<open>All\<close> is taken in HOL.
\<close>

record 'w databaseHandler =
  Migrate :: "'w \<Rightarrow> (int \<times> error option) \<times> 'w"
  AddEntry :: "Lease \<Rightarrow> 'w \<Rightarrow> error option \<times> 'w"
  DeleteEntry :: "string \<Rightarrow> 'w \<Rightarrow> error option \<times> 'w"
  LeaseForUnderlayIP :: "string \<Rightarrow> 'w \<Rightarrow> (Lease option \<times> error option) \<times> 'w"
  All_db :: "'w \<Rightarrow> (Lease list \<times> error option) \<times> 'w"

record 'w cidrPool =
  GetAvailable :: "string list \<Rightarrow> 'w \<Rightarrow> (string \<times> error option) \<times> 'w"

record 'w hardwareAddressGenerator =
  GenerateForVTEP :: "IP \<Rightarrow> 'w \<Rightarrow> (HardwareAddr \<times> error option) \<times> 'w"

text \<open>
  The struct \<^verbatim>\<open>LeaseController\<close>.  Its field \<^verbatim>\<open>UnderlayIP\<close> is named
  \<open>UnderlayIP_c\<close> here, the name \<open>UnderlayIP\<close> being the field of \<^typ>\<open>Lease\<close>.  The
  logger is not a field of the model: its calls are recorded as events.
\<close>

record 'w LeaseController =
  DatabaseHandler :: "'w databaseHandler"
  HardwareAddressGenerator :: "'w hardwareAddressGenerator"
  MaxMigrationAttempts :: int
  MigrationAttemptSleepDuration :: Duration
  AcquireSubnetLeaseAttempts :: int
  CIDRPool :: "'w cidrPool"
  UnderlayIP_c :: string

text \<open>
  The two functions of Go's package \<^verbatim>\<open>net\<close> that \<^verbatim>\<open>tryAcquireLease\<close> calls are pure
  and belong to the standard library, not to this repository: they are parameters.
\<close>

record net_pkg =
  ParseCIDR :: "string \<Rightarrow> IP \<times> IPNet \<times> error option"
  HardwareAddr_String :: "HardwareAddr \<Rightarrow> string"

subsection \<open>Effects\<close>

text \<open>
  Every call of a collaborator, every \<^verbatim>\<open>time.Sleep\<close> and every \<^verbatim>\<open>Logger.Info\<close> is
  appended to a log of events, in the order the code performs them.
\<close>

text \<open>The values of a \<^verbatim>\<open>lager.Data\<close> that the controller logs; a lease is logged as the
  pointer \<^verbatim>\<open>*controller.Lease\<close>, which may be nil.\<close>

datatype lager_value = LInt int | LString string | LLease "Lease option"

datatype event =
    DB_Migrate
  | DB_AddEntry Lease
  | DB_DeleteEntry string
  | DB_LeaseForUnderlayIP string
  | DB_All
  | Pool_GetAvailable "string list"
  | HW_GenerateForVTEP IP
  | Time_Sleep Duration
  | Logger_Info string "(string \<times> lager_value) list"

record 'w sys =
  world :: 'w
  calls :: "event list"

definition call :: "event \<Rightarrow> ('w \<Rightarrow> 'a \<times> 'w) \<Rightarrow> 'w sys \<Rightarrow> 'a \<times> 'w sys" where
  "call ev f s = (case f (world s) of (r, w') \<Rightarrow> (r, \<lparr>world = w', calls = calls s @ [ev]\<rparr>))"

definition emit :: "event \<Rightarrow> 'w sys \<Rightarrow> 'w sys" where
  "emit ev s = s\<lparr>calls := calls s @ [ev]\<rparr>"

text \<open>
  \<^verbatim>\<open>fmt.Errorf("<prefix>%s", err)\<close>: the verb \<^verbatim>\<open>%s\<close> prints the message of an error,
  and \<^verbatim>\<open>%!s(<nil>)\<close> for a nil one.
\<close>

definition fmt_verb_s :: "error option \<Rightarrow> string" where
  "fmt_verb_s err = (case err of None \<Rightarrow> ''%!s(<nil>)'' | Some e \<Rightarrow> e)"

definition fmt_Errorf :: "string \<Rightarrow> error option \<Rightarrow> error" where
  "fmt_Errorf prefix err = prefix @ fmt_verb_s err"

section \<open>The operations of the lease controller\<close>

text \<open>
  \<^verbatim>\<open>TryMigrations\<close>: the loop \<^verbatim>\<open>for nErrors < c.MaxMigrationAttempts\<close>, with the
  variables \<^verbatim>\<open>nErrors\<close> and \<^verbatim>\<open>err\<close> as arguments.  The counter is a Go \<^verbatim>\<open>int\<close>
  that starts at 0 and is incremented only while it is below the bound, so it never
  wraps: it is an integer here.  The world changes in the calls of the collaborators
  only; \<^verbatim>\<open>time.Sleep\<close> is recorded in the log.
\<close>

function TryMigrations_loop ::
  "'w LeaseController \<Rightarrow> int \<Rightarrow> error option \<Rightarrow> 'w sys \<Rightarrow> error option \<times> 'w sys" where
  "TryMigrations_loop c nErrors err s =
     (if nErrors < MaxMigrationAttempts c then
        (case call DB_Migrate (Migrate (DatabaseHandler c)) s of
           ((n, err'), s1) \<Rightarrow>
             (case err' of
                None \<Rightarrow>
                  (None, emit (Logger_Info ''db-migration-complete'' [(''num-applied'', LInt n)]) s1)
              | Some e \<Rightarrow>
                  TryMigrations_loop c (nErrors + 1) err'
                    (emit (Time_Sleep (MigrationAttemptSleepDuration c)) s1)))
      else (Some (fmt_Errorf ''creating table: '' err), s))"
  by pat_completeness auto
termination
  by (relation "measure (\<lambda>(c, nErrors, err, s). nat (MaxMigrationAttempts c - nErrors))") auto

definition TryMigrations :: "'w LeaseController \<Rightarrow> 'w sys \<Rightarrow> error option \<times> 'w sys" where
  "TryMigrations c s = TryMigrations_loop c 0 None s"

definition ReleaseSubnetLease :: "'w LeaseController \<Rightarrow> 'w sys \<Rightarrow> error option \<times> 'w sys" where
  "ReleaseSubnetLease c s =
     (case call (DB_DeleteEntry (UnderlayIP_c c))
             (DeleteEntry (DatabaseHandler c) (UnderlayIP_c c)) s of
        (err, s1) \<Rightarrow>
          (case err of
             Some e \<Rightarrow> (Some (fmt_Errorf ''releasing lease: '' err), s1)
           | None \<Rightarrow>
               (None, emit (Logger_Info ''subnet-released''
                              [(''underlay ip'', LString (UnderlayIP_c c))]) s1)))"

definition RoutableLeases ::
  "'w LeaseController \<Rightarrow> 'w sys \<Rightarrow> (Lease list \<times> error option) \<times> 'w sys" where
  "RoutableLeases c s =
     (case call DB_All (All_db (DatabaseHandler c)) s of
        ((leases, err), s1) \<Rightarrow>
          (case err of
             Some e \<Rightarrow> (([], Some (fmt_Errorf ''getting all leases: '' err)), s1)
           | None \<Rightarrow> ((leases, None), s1)))"

definition tryAcquireLease ::
  "net_pkg \<Rightarrow> 'w LeaseController \<Rightarrow> string \<Rightarrow> 'w sys \<Rightarrow> (Lease option \<times> error option) \<times> 'w sys"
  where
  "tryAcquireLease net c underlayIP s =
     (case call DB_All (All_db (DatabaseHandler c)) s of
        ((leases, err1), s1) \<Rightarrow>
     (case err1 of
        Some e \<Rightarrow> ((None, Some (fmt_Errorf ''getting all subnets: '' err1)), s1)
      | None \<Rightarrow>
     (let taken = map OverlaySubnet leases in
     (case call (Pool_GetAvailable taken) (GetAvailable (CIDRPool c) taken) s1 of
        ((subnet, err2), s2) \<Rightarrow>
     (case err2 of
        Some e \<Rightarrow> ((None, Some (fmt_Errorf ''get available subnet: '' err2)), s2)
      | None \<Rightarrow>
     (case ParseCIDR net subnet of
        (vtepIP, _, err3) \<Rightarrow>
     (case err3 of
        Some e \<Rightarrow> ((None, Some (fmt_Errorf ''parse subnet: '' err3)), s2)
      | None \<Rightarrow>
     (case call (HW_GenerateForVTEP vtepIP)
             (GenerateForVTEP (HardwareAddressGenerator c) vtepIP) s2 of
        ((hwAddr, err4), s3) \<Rightarrow>
     (case err4 of
        Some e \<Rightarrow> ((None, Some (fmt_Errorf ''generate hardware address: '' err4)), s3)
      | None \<Rightarrow>
     (let lease = \<lparr>UnderlayIP = underlayIP, OverlaySubnet = subnet,
                   OverlayHardwareAddr = HardwareAddr_String net hwAddr\<rparr> in
     (case call (DB_AddEntry lease) (AddEntry (DatabaseHandler c) lease) s3 of
        (err5, s4) \<Rightarrow>
     (case err5 of
        Some e \<Rightarrow> ((None, Some (fmt_Errorf ''adding lease entry: '' err5)), s4)
      | None \<Rightarrow> ((Some lease, None), s4)))))))))))))"

text \<open>
  \<^verbatim>\<open>AcquireSubnetLease\<close>: the loop \<^verbatim>\<open>for numErrs := 0; numErrs < attempts; numErrs++\<close>
  with the variables \<^verbatim>\<open>lease\<close> and \<^verbatim>\<open>err\<close> as arguments, then the function itself.
\<close>

function AcquireSubnetLease_loop ::
  "net_pkg \<Rightarrow> 'w LeaseController \<Rightarrow> string \<Rightarrow> int \<Rightarrow> Lease option \<Rightarrow> error option \<Rightarrow> 'w sys
     \<Rightarrow> (Lease option \<times> error option) \<times> 'w sys" where
  "AcquireSubnetLease_loop net c underlayIP numErrs lease err s =
     (if numErrs < AcquireSubnetLeaseAttempts c then
        (case tryAcquireLease net c underlayIP s of
           ((lease', err'), s1) \<Rightarrow>
             (case err' of
                None \<Rightarrow>
                  ((lease', None),
                   emit (Logger_Info ''lease-acquired''
                     [(''lease'', LLease lease')]) s1)
              | Some e \<Rightarrow> AcquireSubnetLease_loop net c underlayIP (numErrs + 1) lease' err' s1))
      else ((lease, err), s))"
  by pat_completeness auto
termination
  by (relation "measure (\<lambda>(net, c, underlayIP, numErrs, lease, err, s).
         nat (AcquireSubnetLeaseAttempts c - numErrs))") auto

definition AcquireSubnetLease ::
  "net_pkg \<Rightarrow> 'w LeaseController \<Rightarrow> string \<Rightarrow> 'w sys \<Rightarrow> (Lease option \<times> error option) \<times> 'w sys"
  where
  "AcquireSubnetLease net c underlayIP s =
     (case call (DB_LeaseForUnderlayIP underlayIP)
             (LeaseForUnderlayIP (DatabaseHandler c) underlayIP) s of
        ((lease, err), s1) \<Rightarrow>
          (case lease of
             Some l \<Rightarrow> ((lease, None), emit (Logger_Info ''lease-renewed'' [(''lease'', LLease lease)]) s1)
           | None \<Rightarrow> AcquireSubnetLease_loop net c underlayIP 0 lease err s1))"


declare TryMigrations_loop.simps [simp del]
declare AcquireSubnetLease_loop.simps [simp del]

subsection \<open>Vocabulary for the retry loops\<close>

text \<open>
  The world after \<open>k\<close> calls of \<^verbatim>\<open>Migrate\<close>, and the error and the count that the call
  number \<open>k\<close> (counted from 0) returns.
\<close>

definition after_migrations :: "'w databaseHandler \<Rightarrow> nat \<Rightarrow> 'w \<Rightarrow> 'w" where
  "after_migrations db k = (\<lambda>w. snd (Migrate db w)) ^^ k"

definition migration_error :: "'w databaseHandler \<Rightarrow> nat \<Rightarrow> 'w \<Rightarrow> error option" where
  "migration_error db k w = snd (fst (Migrate db (after_migrations db k w)))"

definition migration_count :: "'w databaseHandler \<Rightarrow> nat \<Rightarrow> 'w \<Rightarrow> int" where
  "migration_count db k w = fst (fst (Migrate db (after_migrations db k w)))"



definition new_calls :: "'w sys \<Rightarrow> 'w sys \<Rightarrow> event list" where
  "new_calls s s' = drop (length (calls s)) (calls s')"

text \<open>The state in which \<^verbatim>\<open>AcquireSubnetLease\<close> enters its loop: after the lookup.\<close>

definition after_lookup :: "'w LeaseController \<Rightarrow> string \<Rightarrow> 'w sys \<Rightarrow> 'w sys" where
  "after_lookup c underlayIP s =
     snd (call (DB_LeaseForUnderlayIP underlayIP)
            (LeaseForUnderlayIP (DatabaseHandler c) underlayIP) s)"

subsection \<open>In-memory collaborators\<close>

text \<open>
  The interfaces carry \<^verbatim>\<open>go:generate counterfeiter\<close> directives: the tests run the
  controller against fakes.  The following in-memory store, pool and generator play
  that part here; they are used only to run the controller on concrete inputs.
\<close>

record mem_world =
  rows :: "Lease list"
  migrate_failures :: nat
  pending_changes :: int
  lookup_failure :: "error option"

definition mem_db :: "mem_world databaseHandler" where
  "mem_db =
     \<lparr>Migrate = (\<lambda>w.
        if 0 < migrate_failures w
        then ((0, Some ''connection refused''), w\<lparr>migrate_failures := migrate_failures w - 1\<rparr>)
        else ((pending_changes w, None), w\<lparr>pending_changes := 0\<rparr>)),
      AddEntry = (\<lambda>l w.
        if list_ex (\<lambda>r. UnderlayIP r = UnderlayIP l \<or> OverlaySubnet r = OverlaySubnet l) (rows w)
        then (Some ''duplicate entry'', w)
        else (None, w\<lparr>rows := rows w @ [l]\<rparr>)),
      DeleteEntry = (\<lambda>u w.
        if list_ex (\<lambda>r. UnderlayIP r = u) (rows w)
        then (None, w\<lparr>rows := filter (\<lambda>r. UnderlayIP r \<noteq> u) (rows w)\<rparr>)
        else (Some ''record not affected'', w)),
      LeaseForUnderlayIP = (\<lambda>u w.
        case lookup_failure w of
          Some e \<Rightarrow> ((None, Some e), w)
        | None \<Rightarrow> ((find (\<lambda>r. UnderlayIP r = u) (rows w), None), w)),
      All_db = (\<lambda>w. ((rows w, None), w))\<rparr>"

definition mem_pool :: "string list \<Rightarrow> mem_world cidrPool" where
  "mem_pool candidates =
     \<lparr>GetAvailable = (\<lambda>taken w.
        case filter (\<lambda>x. x \<notin> set taken) candidates of
          [] \<Rightarrow> (([], Some ''no subnets available''), w)
        | x # _ \<Rightarrow> ((x, None), w))\<rparr>"

definition mem_generator :: "mem_world hardwareAddressGenerator" where
  "mem_generator =
     \<lparr>GenerateForVTEP = (\<lambda>ip w.
        if length ip = 4 then ((0xee # 0xee # ip, None), w)
        else (([], Some ''generating MAC: IP is not IPv4''), w))\<rparr>"

definition hexDigit :: string where
  "hexDigit = ''0123456789abcdef''"

fun hex_bytes :: "8 word list \<Rightarrow> string" where
  "hex_bytes [] = []"
| "hex_bytes [b] = [hexDigit ! (unat b div 16), hexDigit ! (unat b mod 16)]"
| "hex_bytes (b # bs) =
     [hexDigit ! (unat b div 16), hexDigit ! (unat b mod 16)] @ '':'' @ hex_bytes bs"

definition mem_net :: net_pkg where
  "mem_net =
     \<lparr>ParseCIDR = (\<lambda>s.
        if s = ''10.255.0.0/24'' then ([10, 255, 0, 0], ([10, 255, 0, 0], [255, 255, 255, 0]), None)
        else if s = ''10.255.1.0/24'' then ([10, 255, 1, 0], ([10, 255, 1, 0], [255, 255, 255, 0]), None)
        else ([], ([], []), Some (''invalid CIDR address: '' @ s))),
      HardwareAddr_String = hex_bytes\<rparr>"

definition mem_controller :: "int \<Rightarrow> int \<Rightarrow> string list \<Rightarrow> mem_world LeaseController" where
  "mem_controller maxMigrations attempts candidates =
     \<lparr>DatabaseHandler = mem_db,
      HardwareAddressGenerator = mem_generator,
      MaxMigrationAttempts = maxMigrations,
      MigrationAttemptSleepDuration = 1000000000,
      AcquireSubnetLeaseAttempts = attempts,
      CIDRPool = mem_pool candidates,
      UnderlayIP_c = ''10.0.0.5''\<rparr>"

definition mem_sys :: "Lease list \<Rightarrow> nat \<Rightarrow> int \<Rightarrow> error option \<Rightarrow> mem_world sys" where
  "mem_sys ls failures pending lookupErr =
     \<lparr>world = \<lparr>rows = ls, migrate_failures = failures, pending_changes = pending,
                lookup_failure = lookupErr\<rparr>,
      calls = []\<rparr>"

definition lease1 :: Lease where
  "lease1 = \<lparr>UnderlayIP = ''10.0.0.5'', OverlaySubnet = ''10.255.0.0/24'',
             OverlayHardwareAddr = ''ee:ee:0a:ff:00:00''\<rparr>"

definition lease2 :: Lease where
  "lease2 = \<lparr>UnderlayIP = ''10.0.0.6'', OverlaySubnet = ''10.255.1.0/24'',
             OverlayHardwareAddr = ''ee:ee:0a:ff:01:00''\<rparr>"


section \<open>The veth manager\<close>

text \<open>
  The package \<^verbatim>\<open>veth\<close> is present through its test suite only: the manager, its
  adapters and the kernel behind them are modelled from the specification (sections
  3, 4.4, 6 and 7) and from what the tests observe, that is the link names, the address
  lists and the error messages.
\<close>

text \<open>
  Modelled from the spec: the scope of an address (the specification names the
  link-local scope, the tests compare with \<^verbatim>\<open>netlink.SCOPE_LINK\<close>); the type
  \<^verbatim>\<open>netlink.Scope\<close> is missing.
\<close>

datatype scope = SCOPE_UNIVERSE | SCOPE_SITE | SCOPE_LINK | SCOPE_HOST | SCOPE_NOWHERE

text \<open>
  Modelled from the spec: the family filter of list-addresses (the tests pass
  \<^verbatim>\<open>netlink.FAMILY_ALL\<close>, the specification filters to the IPv6 family); the constants
  of \<^verbatim>\<open>netlink\<close> are missing.
\<close>

datatype family = FAMILY_ALL | FAMILY_V4 | FAMILY_V6

text \<open>
  Modelled from the spec: an address as the tests read a \<^verbatim>\<open>netlink.Addr\<close>, which is
  missing: the text of its \<^verbatim>\<open>IPNet\<close>, the text of its \<^verbatim>\<open>Peer\<close> (nil when it has none)
  and its scope.
\<close>

record Addr =
  IPNet :: string
  Peer :: "string option"
  Scope :: scope

text \<open>
  Modelled from the spec: membership in the IPv6 family, which the missing adapter
  decides; here an address is an IPv6 address when its text contains a colon.
\<close>

definition is_ipv6 :: "Addr \<Rightarrow> bool" where
  "is_ipv6 a = (CHR '':'' \<in> set (IPNet a))"

text \<open>Modelled from the spec: the family filter applied to one address.\<close>

fun in_family :: "family \<Rightarrow> Addr \<Rightarrow> bool" where
  "in_family FAMILY_ALL a = True"
| "in_family FAMILY_V4 a = (\<not> is_ipv6 a)"
| "in_family FAMILY_V6 a = is_ipv6 a"

text \<open>
  Modelled from the spec: a link of the kernel, which the missing Namespace/Link
  Adapter wraps, with its MTU and the addresses that it carries.
\<close>

record device =
  MTU :: int
  Addrs :: "Addr list"

text \<open>
  Modelled from the spec: the kernel behind the missing Namespace/Link Adapter.  A
  device is found under its namespace and its link name.  \<open>namespaces\<close> are the paths
  that open, \<open>veth_names\<close> are the names that the generator of host-side names
  proposes, in order, \<open>autoconf\<close> are the addresses that the kernel itself puts on a
  new link, and \<open>unparseable\<close> gives the error of parse-address for a string.
\<close>

record kernel =
  namespaces :: "string list"
  devices :: "string \<times> string \<Rightarrow> device option"
  veth_names :: "string list"
  autoconf :: "string \<Rightarrow> Addr list"
  unparseable :: "string \<Rightarrow> error option"

text \<open>Modelled from the spec: open-namespace-by-path of the missing adapter.\<close>

definition GetNS :: "string \<Rightarrow> kernel \<Rightarrow> error + string" where
  "GetNS path k =
     (if path \<in> set (namespaces k) then Inr path
      else Inl (''failed to open netns '' @ path))"

text \<open>Modelled from the spec: link-by-name of the missing adapter, inside a namespace.\<close>

definition LinkByName :: "string \<Rightarrow> string \<Rightarrow> kernel \<Rightarrow> error + device" where
  "LinkByName ns name k =
     (case devices k (ns, name) of None \<Rightarrow> Inl ''Link not found'' | Some d \<Rightarrow> Inr d)"


text \<open>Modelled from the spec: list-addresses(link, family-filter) of the missing adapter.\<close>

definition AddrList :: "string \<Rightarrow> string \<Rightarrow> family \<Rightarrow> kernel \<Rightarrow> error + Addr list" where
  "AddrList ns name fam k =
     (case devices k (ns, name) of
        None \<Rightarrow> Inl ''no such device''
      | Some d \<Rightarrow> Inr (filter (in_family fam) (Addrs d)))"


text \<open>
  Modelled from the spec: delete-address(link, address) of the missing adapter.  The
  kernel refuses an address that the link does not carry.
\<close>

definition AddrDel :: "string \<Rightarrow> string \<Rightarrow> Addr \<Rightarrow> kernel \<Rightarrow> error + kernel" where
  "AddrDel ns name a k =
     (case devices k (ns, name) of
        None \<Rightarrow> Inl ''no such device''
      | Some d \<Rightarrow>
          if a \<in> set (Addrs d)
          then Inr (k\<lparr>devices := (devices k)((ns, name) \<mapsto> d\<lparr>Addrs := remove1 a (Addrs d)\<rparr>)\<rparr>)
          else Inl ''cannot assign requested address'')"

text \<open>
  Modelled from the spec: the missing struct \<^verbatim>\<open>veth.Manager\<close>, with the fields that
  the tests set and read: the two configured paths, and the two namespace handles, nil
  until \<^verbatim>\<open>Init\<close> has resolved them.
\<close>

record Manager =
  ContainerNSPath :: string
  HostNSPath :: string
  HostNS :: "string option"
  ContainerNS :: "string option"

text \<open>
  Modelled from the spec: one end of the missing struct \<^verbatim>\<open>veth.Pair\<close>, a link (its
  name) with the namespace that holds it.
\<close>

record Peer_end =
  Link :: string
  Namespace :: string

text \<open>Modelled from the spec: the missing struct \<^verbatim>\<open>veth.Pair\<close> (VethPair), its two ends.\<close>

record Pair =
  Host :: Peer_end
  Container :: Peer_end

text \<open>
  Modelled from the spec: the missing \<^verbatim>\<open>Manager.Init\<close>, which resolves the host-side
  and the container-side namespace handles and fails naming the side; the messages are
  those of the tests.
\<close>

definition Init :: "Manager \<Rightarrow> kernel \<Rightarrow> error + Manager" where
  "Init m k =
     (case GetNS (HostNSPath m) k of
        Inl e \<Rightarrow> Inl (''Getting host namespace: '' @ e)
      | Inr h \<Rightarrow>
          (case GetNS (ContainerNSPath m) k of
             Inl e \<Rightarrow> Inl (''Getting container namespace: '' @ e)
           | Inr cn \<Rightarrow> Inr (m\<lparr>HostNS := Some h, ContainerNS := Some cn\<rparr>)))"

text \<open>
  Modelled from the spec: the missing \<^verbatim>\<open>Manager.CreatePair\<close>
  (\<^verbatim>\<open>createPair(containerInterfaceName, mtu)\<close>).  The existence of the container-side
  name is checked before anything is created, and the message is that of the test; the
  host-side name is the first proposed name that no host-side link carries; both new
  links start with the addresses that the kernel configures by itself.
\<close>

definition CreatePair :: "Manager \<Rightarrow> string \<Rightarrow> int \<Rightarrow> kernel \<Rightarrow> (error + Pair) \<times> kernel" where
  "CreatePair m ifname mtu k =
     (case (HostNS m, ContainerNS m) of
        (Some h, Some cn) \<Rightarrow>
          if devices k (cn, ifname) \<noteq> None
          then (Inl (''container veth name provided ('' @ ifname @ '') already exists''), k)
          else
            (case filter (\<lambda>n. devices k (h, n) = None \<and> (h, n) \<noteq> (cn, ifname)) (veth_names k) of
               [] \<Rightarrow> (Inl ''failed to find a unique veth name'', k)
             | hostName # _ \<Rightarrow>
                 (Inr \<lparr>Host = \<lparr>Link = hostName, Namespace = h\<rparr>,
                       Container = \<lparr>Link = ifname, Namespace = cn\<rparr>\<rparr>,
                  k\<lparr>devices := (devices k)
                      ((cn, ifname) \<mapsto> \<lparr>MTU = mtu, Addrs = autoconf k ifname\<rparr>,
                       (h, hostName) \<mapsto> \<lparr>MTU = mtu, Addrs = autoconf k hostName\<rparr>)\<rparr>))
      | _ \<Rightarrow> (Inl ''veth manager is not initialized'', k))"



text \<open>
  Modelled from the spec: the removal loop of the missing \<^verbatim>\<open>Manager.DisableIPv6\<close>
  ("remove each"), which stops at the first address that cannot be removed.
\<close>

fun removeAddrs :: "Peer_end \<Rightarrow> Addr list \<Rightarrow> kernel \<Rightarrow> error option \<times> kernel" where
  "removeAddrs p [] k = (None, k)"
| "removeAddrs p (a # as) k =
     (case AddrDel (Namespace p) (Link p) a k of
        Inl e \<Rightarrow> (Some (''removing address '' @ IPNet a @ '': '' @ e), k)
      | Inr k' \<Rightarrow> removeAddrs p as k')"

text \<open>
  Modelled from the spec: one end of the missing \<^verbatim>\<open>Manager.DisableIPv6\<close>: "enumerate
  addresses filtered to the IPv6 family, remove each".
\<close>

definition removeIPv6Addresses :: "Peer_end \<Rightarrow> kernel \<Rightarrow> error option \<times> kernel" where
  "removeIPv6Addresses p k =
     (case LinkByName (Namespace p) (Link p) k of
        Inl e \<Rightarrow> (Some (''find link by name '' @ Link p @ '': '' @ e), k)
      | Inr _ \<Rightarrow>
          (case AddrList (Namespace p) (Link p) FAMILY_V6 k of
             Inl e \<Rightarrow> (Some (''listing addresses of '' @ Link p @ '': '' @ e), k)
           | Inr as \<Rightarrow> removeAddrs p as k))"

text \<open>
  Modelled from the spec: the missing \<^verbatim>\<open>Manager.DisableIPv6\<close> (\<^verbatim>\<open>disableIPv6(pair)\<close>),
  which removes every IPv6 address on both ends of the pair, the host end first.
\<close>

definition DisableIPv6 :: "Pair \<Rightarrow> kernel \<Rightarrow> error option \<times> kernel" where
  "DisableIPv6 pair k =
     (case removeIPv6Addresses (Host pair) k of
        (Some e, k1) \<Rightarrow> (Some e, k1)
      | (None, k1) \<Rightarrow> removeIPv6Addresses (Container pair) k1)"

subsection \<open>A kernel to run the manager on\<close>

text \<open>
  The fixture of the tests: two namespaces and a manager configured with their paths.
  The kernel puts one IPv6 link-local address on every new link; the test of
  \<^verbatim>\<open>AssignIP\<close> disables IPv6 on the new pair before it counts the addresses.
\<close>

definition test_kernel :: kernel where
  "test_kernel =
     \<lparr>namespaces = [''/var/run/netns/host'', ''/var/run/netns/container''],
      devices = (\<lambda>_. None),
      veth_names = [''veth0a1b2c3d'', ''veth4e5f6a7b''],
      autoconf = (\<lambda>name. [\<lparr>IPNet = ''fe80::1/64'', Peer = None, Scope = SCOPE_LINK\<rparr>]),
      unparseable = (\<lambda>str. if CHR ''/'' \<in> set str then None
                           else Some (''invalid CIDR address: '' @ str))\<rparr>"

definition test_manager :: Manager where
  "test_manager =
     \<lparr>ContainerNSPath = ''/var/run/netns/container'', HostNSPath = ''/var/run/netns/host'',
      HostNS = Some ''/var/run/netns/host'', ContainerNS = Some ''/var/run/netns/container''\<rparr>"

definition test_pair :: Pair where
  "test_pair =
     \<lparr>Host = \<lparr>Link = ''veth0a1b2c3d'', Namespace = ''/var/run/netns/host''\<rparr>,
      Container = \<lparr>Link = ''eth0'', Namespace = ''/var/run/netns/container''\<rparr>\<rparr>"

definition kernel_with_pair :: kernel where
  "kernel_with_pair = snd (CreatePair test_manager ''eth0'' 1500 test_kernel)"

section \<open>Properties of the lease controller\<close>

subsection \<open>Auxiliary facts\<close>

lemma after_migrations_0: "after_migrations db 0 w = w"
  by (simp add: after_migrations_def)

lemma after_migrations_Suc:
  "after_migrations db (Suc k) w = after_migrations db k (snd (Migrate db w))"
  unfolding after_migrations_def by (simp only: funpow_Suc_right o_apply)

lemma migration_error_Suc:
  "migration_error db (Suc k) w = migration_error db k (snd (Migrate db w))"
  by (simp add: migration_error_def after_migrations_Suc)

lemma new_calls_append: "calls s' = calls s @ t \<Longrightarrow> new_calls s s' = t"
  by (simp add: new_calls_def)

lemma count_list_rounds:
  "a \<noteq> b \<Longrightarrow> count_list (concat (replicate n [a, b])) a = n"
  by (induction n) auto

text \<open>The loop of \<^verbatim>\<open>TryMigrations\<close> when every call of \<^verbatim>\<open>Migrate\<close> that it makes fails.\<close>

lemma TryMigrations_loop_fail:
  "\<forall>k<n. migration_error (DatabaseHandler c) k (world s) \<noteq> None \<Longrightarrow>
   n = nat (MaxMigrationAttempts c - nErrors) \<Longrightarrow>
   TryMigrations_loop c nErrors err s =
     (Some (fmt_Errorf ''creating table: ''
        (if n = 0 then err else migration_error (DatabaseHandler c) (n - 1) (world s))),
      \<lparr>world = after_migrations (DatabaseHandler c) n (world s),
       calls = calls s @
         concat (replicate n [DB_Migrate, Time_Sleep (MigrationAttemptSleepDuration c)])\<rparr>)"
proof (induction n arbitrary: nErrors err s)
  case 0
  then have "\<not> nErrors < MaxMigrationAttempts c" by simp
  then show ?case
    by (simp add: TryMigrations_loop.simps [of c nErrors] after_migrations_0)
next
  case (Suc n)
  let ?db = "DatabaseHandler c"
  obtain cnt e w1 where m: "Migrate ?db (world s) = ((cnt, e), w1)"
    by (metis prod.exhaust)
  from Suc.prems(1) have "migration_error ?db 0 (world s) \<noteq> None" by blast
  with m obtain msg where e: "e = Some msg"
    by (auto simp: migration_error_def after_migrations_0)
  let ?s1 = "emit (Time_Sleep (MigrationAttemptSleepDuration c))
               \<lparr>world = w1, calls = calls s @ [DB_Migrate]\<rparr>"
  have w: "world ?s1 = w1" by (simp add: emit_def)
  have fails: "\<forall>k<n. migration_error ?db k (world ?s1) \<noteq> None"
  proof (intro allI impI)
    fix k assume "k < n"
    then have "migration_error ?db (Suc k) (world s) \<noteq> None"
      using Suc.prems(1) by simp
    then show "migration_error ?db k (world ?s1) \<noteq> None"
      using m by (simp add: w migration_error_Suc)
  qed
  have n: "n = nat (MaxMigrationAttempts c - (nErrors + 1))"
    using Suc.prems(2) by linarith
  have lt: "nErrors < MaxMigrationAttempts c"
    using Suc.prems(2) by linarith
  have step: "TryMigrations_loop c nErrors err s = TryMigrations_loop c (nErrors + 1) e ?s1"
    using lt m e by (simp add: TryMigrations_loop.simps [of c nErrors] call_def)
  have last: "(if n = 0 then e else migration_error ?db (n - 1) (world ?s1))
                = migration_error ?db n (world s)"
  proof (cases n)
    case 0
    then show ?thesis using m by (simp add: migration_error_def after_migrations_0)
  next
    case (Suc j)
    then show ?thesis using m by (simp add: w migration_error_Suc)
  qed
  show ?case
    unfolding step Suc.IH [OF fails n] last
    using m by (simp add: w after_migrations_Suc emit_def)
qed

text \<open>The same loop when \<^verbatim>\<open>Migrate\<close> fails \<open>M\<close> times and then succeeds within the bound.\<close>

lemma TryMigrations_loop_success:
  "\<forall>k<M. migration_error (DatabaseHandler c) k (world s) \<noteq> None \<Longrightarrow>
   Migrate (DatabaseHandler c) (after_migrations (DatabaseHandler c) M (world s))
     = ((cnt, None), w') \<Longrightarrow>
   nErrors + int M < MaxMigrationAttempts c \<Longrightarrow>
   TryMigrations_loop c nErrors err s =
     (None,
      \<lparr>world = w',
       calls = calls s @
         concat (replicate M [DB_Migrate, Time_Sleep (MigrationAttemptSleepDuration c)])
         @ [DB_Migrate, Logger_Info ''db-migration-complete'' [(''num-applied'', LInt cnt)]]\<rparr>)"
proof (induction M arbitrary: nErrors err s)
  case 0
  then show ?case
    by (simp add: TryMigrations_loop.simps [of c nErrors] after_migrations_0 call_def emit_def)
next
  case (Suc M)
  let ?db = "DatabaseHandler c"
  obtain cnt0 e w1 where m: "Migrate ?db (world s) = ((cnt0, e), w1)"
    by (metis prod.exhaust)
  from Suc.prems(1) have "migration_error ?db 0 (world s) \<noteq> None" by blast
  with m obtain msg where e: "e = Some msg"
    by (auto simp: migration_error_def after_migrations_0)
  let ?s1 = "emit (Time_Sleep (MigrationAttemptSleepDuration c))
               \<lparr>world = w1, calls = calls s @ [DB_Migrate]\<rparr>"
  have w: "world ?s1 = w1" by (simp add: emit_def)
  have fails: "\<forall>k<M. migration_error ?db k (world ?s1) \<noteq> None"
  proof (intro allI impI)
    fix k assume "k < M"
    then have "migration_error ?db (Suc k) (world s) \<noteq> None"
      using Suc.prems(1) by simp
    then show "migration_error ?db k (world ?s1) \<noteq> None"
      using m by (simp add: w migration_error_Suc)
  qed
  have ok: "Migrate ?db (after_migrations ?db M (world ?s1)) = ((cnt, None), w')"
    using Suc.prems(2) m by (simp add: w after_migrations_Suc)
  have bound: "(nErrors + 1) + int M < MaxMigrationAttempts c"
    using Suc.prems(3) by simp
  have lt: "nErrors < MaxMigrationAttempts c"
    using Suc.prems(3) by linarith
  have step: "TryMigrations_loop c nErrors err s = TryMigrations_loop c (nErrors + 1) e ?s1"
    using lt m e by (simp add: TryMigrations_loop.simps [of c nErrors] call_def)
  show ?case
    unfolding step Suc.IH [OF fails ok bound]
    by (simp add: emit_def)
qed

lemma TryMigrations_success:
  assumes "\<forall>k<M. migration_error (DatabaseHandler c) k (world s) \<noteq> None"
    and "migration_error (DatabaseHandler c) M (world s) = None"
    and "int M < MaxMigrationAttempts c"
  shows "fst (TryMigrations c s) = None"
    and "calls (snd (TryMigrations c s)) = calls s @
           concat (replicate M [DB_Migrate, Time_Sleep (MigrationAttemptSleepDuration c)])
           @ [DB_Migrate, Logger_Info ''db-migration-complete''
                [(''num-applied'', LInt (migration_count (DatabaseHandler c) M (world s)))]]"
proof -
  let ?db = "DatabaseHandler c"
  obtain cnt e w' where m: "Migrate ?db (after_migrations ?db M (world s)) = ((cnt, e), w')"
    by (metis prod.exhaust)
  with assms(2) have e: "e = None" by (simp add: migration_error_def)
  have cnt: "migration_count ?db M (world s) = cnt"
    using m by (simp add: migration_count_def)
  have bound: "0 + int M < MaxMigrationAttempts c" using assms(3) by simp
  note run = TryMigrations_loop_success [OF assms(1) m [unfolded e] bound, of None]
  show "fst (TryMigrations c s) = None"
    by (simp add: TryMigrations_def run)
  show "calls (snd (TryMigrations c s)) = calls s @
           concat (replicate M [DB_Migrate, Time_Sleep (MigrationAttemptSleepDuration c)])
           @ [DB_Migrate, Logger_Info ''db-migration-complete''
                [(''num-applied'', LInt (migration_count (DatabaseHandler c) M (world s)))]]"
    by (simp add: TryMigrations_def run cnt)
qed

lemma TryMigrations_exhausted:
  assumes "\<forall>k<nat (MaxMigrationAttempts c). migration_error (DatabaseHandler c) k (world s) \<noteq> None"
  shows "calls (snd (TryMigrations c s)) = calls s @
           concat (replicate (nat (MaxMigrationAttempts c))
                     [DB_Migrate, Time_Sleep (MigrationAttemptSleepDuration c)])"
    and "0 < MaxMigrationAttempts c \<Longrightarrow>
         fst (TryMigrations c s) =
           map_option (\<lambda>e. ''creating table: '' @ e)
             (migration_error (DatabaseHandler c) (nat (MaxMigrationAttempts c) - 1) (world s))"
    and "MaxMigrationAttempts c \<le> 0 \<Longrightarrow>
         fst (TryMigrations c s) = Some ''creating table: %!s(<nil>)''"
proof -
  let ?n = "nat (MaxMigrationAttempts c)"
  have n: "?n = nat (MaxMigrationAttempts c - 0)" by simp
  note run = TryMigrations_loop_fail [OF assms n, of None]
  show "calls (snd (TryMigrations c s)) = calls s @
           concat (replicate ?n [DB_Migrate, Time_Sleep (MigrationAttemptSleepDuration c)])"
    by (simp add: TryMigrations_def run)
  show "fst (TryMigrations c s) =
           map_option (\<lambda>e. ''creating table: '' @ e)
             (migration_error (DatabaseHandler c) (?n - 1) (world s))"
    if pos: "0 < MaxMigrationAttempts c"
  proof -
    from pos have "?n - 1 < ?n" by simp
    with assms obtain e where e: "migration_error (DatabaseHandler c) (?n - 1) (world s) = Some e"
      by blast
    from pos have "?n \<noteq> 0" by simp
    with e show ?thesis
      by (simp add: TryMigrations_def run fmt_Errorf_def fmt_verb_s_def)
  qed
  show "fst (TryMigrations c s) = Some ''creating table: %!s(<nil>)''"
    if "MaxMigrationAttempts c \<le> 0"
    using that by (simp add: TryMigrations_def run fmt_Errorf_def fmt_verb_s_def)
qed










lemma AcquireSubnetLease_no_lease:
  "fst (fst (LeaseForUnderlayIP (DatabaseHandler c) u (world s))) = None \<Longrightarrow>
   AcquireSubnetLease net c u s =
     AcquireSubnetLease_loop net c u 0 None
       (snd (fst (LeaseForUnderlayIP (DatabaseHandler c) u (world s)))) (after_lookup c u s)"
  by (auto simp: AcquireSubnetLease_def after_lookup_def call_def split: prod.splits)

lemmas mem_defs = mem_controller_def mem_sys_def mem_db_def mem_pool_def mem_generator_def
  mem_net_def hexDigit_def lease1_def lease2_def

subsection \<open>Acquisition\<close>

text \<open>
  Claim C1.  When an attempt succeeds, the lease list was read, the pool was given the
  overlay subnets of all the leases read and returned a subnet, the gateway IP was
  parsed from that subnet, the generator derived the hardware address from that IP,
  and the lease returned has the requested underlay IP, that subnet and the text of
  that hardware address; the store was asked to insert this very lease, and these four
  calls are all the attempt did.
\<close>

theorem tryAcquireLease_success:
  assumes "tryAcquireLease net c underlayIP s = ((lease, None), s')"
  shows "\<exists>leases w1 subnet w2 vtepIP ipnet hwAddr w3 w4 l.
     All_db (DatabaseHandler c) (world s) = ((leases, None), w1) \<and>
     GetAvailable (CIDRPool c) (map OverlaySubnet leases) w1 = ((subnet, None), w2) \<and>
     ParseCIDR net subnet = (vtepIP, ipnet, None) \<and>
     GenerateForVTEP (HardwareAddressGenerator c) vtepIP w2 = ((hwAddr, None), w3) \<and>
     l = \<lparr>UnderlayIP = underlayIP, OverlaySubnet = subnet,
           OverlayHardwareAddr = HardwareAddr_String net hwAddr\<rparr> \<and>
     AddEntry (DatabaseHandler c) l w3 = (None, w4) \<and>
     lease = Some l \<and>
     s' = \<lparr>world = w4, calls = calls s @ [DB_All, Pool_GetAvailable (map OverlaySubnet leases),
              HW_GenerateForVTEP vtepIP, DB_AddEntry l]\<rparr>"
  using assms
  by (auto simp: tryAcquireLease_def call_def Let_def split: prod.splits option.splits)

theorem tryAcquireLease_success_witness:
  "tryAcquireLease mem_net (mem_controller 5 10 [''10.255.0.0/24'', ''10.255.1.0/24''])
     ''10.0.0.6'' (mem_sys [lease1] 0 0 None)
   = ((Some lease2, None),
      \<lparr>world = \<lparr>rows = [lease1, lease2], migrate_failures = 0, pending_changes = 0,
                 lookup_failure = None\<rparr>,
       calls = [DB_All, Pool_GetAvailable [''10.255.0.0/24''],
                HW_GenerateForVTEP [10, 255, 1, 0], DB_AddEntry lease2]\<rparr>)
   \<and> (\<exists>leases subnet vtepIP ipnet hwAddr w.
        fst (All_db mem_db (world (mem_sys [lease1] 0 0 None))) = (leases, None) \<and>
        fst (GetAvailable (mem_pool [''10.255.0.0/24'', ''10.255.1.0/24''])
               (map OverlaySubnet leases) w) = (subnet, None) \<and>
        ParseCIDR mem_net subnet = (vtepIP, ipnet, None) \<and>
        fst (GenerateForVTEP mem_generator vtepIP w) = (hwAddr, None) \<and>
        lease2 = \<lparr>UnderlayIP = ''10.0.0.6'', OverlaySubnet = subnet,
                  OverlayHardwareAddr = HardwareAddr_String mem_net hwAddr\<rparr>)"
proof -
  let ?c = "mem_controller 5 10 [''10.255.0.0/24'', ''10.255.1.0/24'']"
  have run: "tryAcquireLease mem_net ?c ''10.0.0.6'' (mem_sys [lease1] 0 0 None)
   = ((Some lease2, None),
      \<lparr>world = \<lparr>rows = [lease1, lease2], migrate_failures = 0, pending_changes = 0,
                 lookup_failure = None\<rparr>,
       calls = [DB_All, Pool_GetAvailable [''10.255.0.0/24''],
                HW_GenerateForVTEP [10, 255, 1, 0], DB_AddEntry lease2]\<rparr>)"
    by code_simp
  have db: "DatabaseHandler ?c = mem_db" "HardwareAddressGenerator ?c = mem_generator"
    "CIDRPool ?c = mem_pool [''10.255.0.0/24'', ''10.255.1.0/24'']"
    by (simp_all add: mem_controller_def)
  from tryAcquireLease_success [OF run] obtain leases w1 subnet w2 vtepIP ipnet hwAddr w3 l
    where f: "All_db mem_db (world (mem_sys [lease1] 0 0 None)) = ((leases, None), w1)"
      "GetAvailable (mem_pool [''10.255.0.0/24'', ''10.255.1.0/24''])
         (map OverlaySubnet leases) w1 = ((subnet, None), w2)"
      "ParseCIDR mem_net subnet = (vtepIP, ipnet, None)"
      "GenerateForVTEP mem_generator vtepIP w2 = ((hwAddr, None), w3)"
      "l = \<lparr>UnderlayIP = ''10.0.0.6'', OverlaySubnet = subnet,
             OverlayHardwareAddr = HardwareAddr_String mem_net hwAddr\<rparr>"
      "Some lease2 = Some l"
    unfolding db by blast
  have "fst (All_db mem_db (world (mem_sys [lease1] 0 0 None))) = (leases, None)"
    "fst (GetAvailable (mem_pool [''10.255.0.0/24'', ''10.255.1.0/24''])
               (map OverlaySubnet leases) w1) = (subnet, None)"
    "fst (GenerateForVTEP mem_generator vtepIP w1) = (hwAddr, None)"
    "lease2 = \<lparr>UnderlayIP = ''10.0.0.6'', OverlaySubnet = subnet,
                  OverlayHardwareAddr = HardwareAddr_String mem_net hwAddr\<rparr>"
    using f by (auto simp: mem_pool_def mem_generator_def split: list.splits if_splits)
  with f(3) run show ?thesis by blast
qed

text \<open>
  Claim C2.  When the lookup returns a lease, \<^verbatim>\<open>AcquireSubnetLease\<close> returns that lease
  and a nil error; the lookup and the log entry are the only two events of the call, so
  neither the pool nor the generator nor the insert of the store is invoked.
\<close>

theorem AcquireSubnetLease_renews:
  assumes "LeaseForUnderlayIP (DatabaseHandler c) underlayIP (world s) = ((Some l, err), w')"
  shows "AcquireSubnetLease net c underlayIP s =
    ((Some l, None),
     \<lparr>world = w', calls = calls s @ [DB_LeaseForUnderlayIP underlayIP,
         Logger_Info ''lease-renewed'' [(''lease'', LLease (Some l))]]\<rparr>)"
  using assms by (simp add: AcquireSubnetLease_def call_def emit_def)

theorem AcquireSubnetLease_renews_witness:
  "LeaseForUnderlayIP (DatabaseHandler (mem_controller 5 10 [''10.255.0.0/24'']))
     ''10.0.0.5'' (world (mem_sys [lease1] 0 0 None))
     = ((Some lease1, None), world (mem_sys [lease1] 0 0 None))
   \<and> AcquireSubnetLease mem_net (mem_controller 5 10 [''10.255.0.0/24''])
       ''10.0.0.5'' (mem_sys [lease1] 0 0 None)
     = ((Some lease1, None),
        \<lparr>world = world (mem_sys [lease1] 0 0 None),
         calls = [DB_LeaseForUnderlayIP ''10.0.0.5'',
                  Logger_Info ''lease-renewed'' [(''lease'', LLease (Some lease1))]]\<rparr>)"
proof -
  have h: "LeaseForUnderlayIP (DatabaseHandler (mem_controller 5 10 [''10.255.0.0/24'']))
     ''10.0.0.5'' (world (mem_sys [lease1] 0 0 None))
     = ((Some lease1, None), world (mem_sys [lease1] 0 0 None))"
    by (simp add: mem_defs)
  have "calls (mem_sys [lease1] 0 0 None) = []" by (simp add: mem_sys_def)
  with AcquireSubnetLease_renews [OF h, of mem_net] h show ?thesis by simp
qed



text \<open>
  Claim C10.  When the lookup finds no lease and the attempt bound is zero or negative,
  the lookup is the only event of the call, and the result is a nil lease with the
  error that the lookup returned, nil if the lookup succeeded.
\<close>

theorem AcquireSubnetLease_no_attempts:
  assumes "LeaseForUnderlayIP (DatabaseHandler c) underlayIP (world s) = ((None, err), w')"
    and "AcquireSubnetLeaseAttempts c \<le> 0"
  shows "AcquireSubnetLease net c underlayIP s =
    ((None, err), \<lparr>world = w', calls = calls s @ [DB_LeaseForUnderlayIP underlayIP]\<rparr>)"
  using assms
  by (simp add: AcquireSubnetLease_def call_def AcquireSubnetLease_loop.simps [of net c underlayIP 0])

theorem AcquireSubnetLease_no_attempts_witness:
  "LeaseForUnderlayIP (DatabaseHandler (mem_controller 5 0 [''10.255.0.0/24''])) ''10.0.0.5''
     (world (mem_sys [] 0 0 None)) = ((None, None), world (mem_sys [] 0 0 None))
   \<and> AcquireSubnetLeaseAttempts (mem_controller 5 0 [''10.255.0.0/24'']) \<le> 0
   \<and> AcquireSubnetLease mem_net (mem_controller 5 0 [''10.255.0.0/24'']) ''10.0.0.5''
       (mem_sys [] 0 0 None)
     = ((None, None),
        \<lparr>world = world (mem_sys [] 0 0 None), calls = [DB_LeaseForUnderlayIP ''10.0.0.5'']\<rparr>)"
proof -
  let ?c = "mem_controller 5 0 [''10.255.0.0/24'']"
  have h: "LeaseForUnderlayIP (DatabaseHandler ?c) ''10.0.0.5'' (world (mem_sys [] 0 0 None))
             = ((None, None), world (mem_sys [] 0 0 None))"
    by (simp add: mem_defs)
  have b: "AcquireSubnetLeaseAttempts ?c \<le> 0"
    by (simp add: mem_controller_def)
  have "calls (mem_sys [] 0 0 None) = []" by (simp add: mem_sys_def)
  with AcquireSubnetLease_no_attempts [OF h b, of mem_net] h b show ?thesis by simp
qed

subsection \<open>Migration\<close>

text \<open>
  Claim C4.  If \<^verbatim>\<open>Migrate\<close> fails \<open>M\<close> times and then succeeds, and
  \<open>M < MaxMigrationAttempts\<close>, then \<^verbatim>\<open>TryMigrations\<close> returns nil after \<open>M + 1\<close> calls of
  \<^verbatim>\<open>Migrate\<close>, with a sleep of \<^verbatim>\<open>MigrationAttemptSleepDuration\<close> after each failure.
  If every call of \<^verbatim>\<open>Migrate\<close> that it makes fails, whatever the errors are, then it makes
  \<open>nat MaxMigrationAttempts\<close> calls, each followed by a sleep of that duration, and
  returns an error; when the bound is positive this error is
  \<^verbatim>\<open>creating table: \<close> followed by the message of the last failure.
\<close>

theorem TryMigrations_retries:
  "((\<forall>k<M. migration_error (DatabaseHandler c) k (world s) \<noteq> None) \<and>
    migration_error (DatabaseHandler c) M (world s) = None \<and>
    int M < MaxMigrationAttempts c \<longrightarrow>
      fst (TryMigrations c s) = None \<and>
      new_calls s (snd (TryMigrations c s))
        = concat (replicate M [DB_Migrate, Time_Sleep (MigrationAttemptSleepDuration c)])
          @ [DB_Migrate, Logger_Info ''db-migration-complete''
               [(''num-applied'', LInt (migration_count (DatabaseHandler c) M (world s)))]] \<and>
      count_list (new_calls s (snd (TryMigrations c s))) DB_Migrate = Suc M)
   \<and>
   ((\<forall>k<nat (MaxMigrationAttempts c). migration_error (DatabaseHandler c) k (world s) \<noteq> None) \<longrightarrow>
      new_calls s (snd (TryMigrations c s))
        = concat (replicate (nat (MaxMigrationAttempts c))
                    [DB_Migrate, Time_Sleep (MigrationAttemptSleepDuration c)]) \<and>
      count_list (new_calls s (snd (TryMigrations c s))) DB_Migrate
        = nat (MaxMigrationAttempts c) \<and>
      fst (TryMigrations c s) \<noteq> None \<and>
      (0 < MaxMigrationAttempts c \<longrightarrow>
         fst (TryMigrations c s) =
           map_option (\<lambda>e. ''creating table: '' @ e)
             (migration_error (DatabaseHandler c) (nat (MaxMigrationAttempts c) - 1) (world s))))"
proof (intro conjI impI)
  assume a: "(\<forall>k<M. migration_error (DatabaseHandler c) k (world s) \<noteq> None) \<and>
    migration_error (DatabaseHandler c) M (world s) = None \<and>
    int M < MaxMigrationAttempts c"
  then have a1: "\<forall>k<M. migration_error (DatabaseHandler c) k (world s) \<noteq> None"
    and a2: "migration_error (DatabaseHandler c) M (world s) = None"
    and a3: "int M < MaxMigrationAttempts c"
    by blast+
  show "fst (TryMigrations c s) = None"
    by (rule TryMigrations_success(1) [OF a1 a2 a3])
  show tr: "new_calls s (snd (TryMigrations c s))
        = concat (replicate M [DB_Migrate, Time_Sleep (MigrationAttemptSleepDuration c)])
          @ [DB_Migrate, Logger_Info ''db-migration-complete''
               [(''num-applied'', LInt (migration_count (DatabaseHandler c) M (world s)))]]"
    by (rule new_calls_append [OF TryMigrations_success(2) [OF a1 a2 a3]])
  show "count_list (new_calls s (snd (TryMigrations c s))) DB_Migrate = Suc M"
    unfolding tr by (simp add: count_list_rounds)
next
  assume b: "\<forall>k<nat (MaxMigrationAttempts c).
               migration_error (DatabaseHandler c) k (world s) \<noteq> None"
  show tr: "new_calls s (snd (TryMigrations c s))
        = concat (replicate (nat (MaxMigrationAttempts c))
                    [DB_Migrate, Time_Sleep (MigrationAttemptSleepDuration c)])"
    by (rule new_calls_append [OF TryMigrations_exhausted(1) [OF b]])
  show "count_list (new_calls s (snd (TryMigrations c s))) DB_Migrate
        = nat (MaxMigrationAttempts c)"
    unfolding tr by (simp add: count_list_rounds)
  show "fst (TryMigrations c s) \<noteq> None"
  proof (cases "0 < MaxMigrationAttempts c")
    case True
    then have "nat (MaxMigrationAttempts c) - 1 < nat (MaxMigrationAttempts c)" by simp
    with b have "migration_error (DatabaseHandler c) (nat (MaxMigrationAttempts c) - 1) (world s)
                   \<noteq> None"
      by blast
    then show ?thesis
      unfolding TryMigrations_exhausted(2) [OF b True] by simp
  next
    case False
    then have "MaxMigrationAttempts c \<le> 0" by simp
    from TryMigrations_exhausted(3) [OF b this] show ?thesis by simp
  qed
next
  assume b: "\<forall>k<nat (MaxMigrationAttempts c).
               migration_error (DatabaseHandler c) k (world s) \<noteq> None"
    and pos: "0 < MaxMigrationAttempts c"
  show "fst (TryMigrations c s) =
           map_option (\<lambda>e. ''creating table: '' @ e)
             (migration_error (DatabaseHandler c) (nat (MaxMigrationAttempts c) - 1) (world s))"
    by (rule TryMigrations_exhausted(2) [OF b pos])
qed

theorem TryMigrations_retries_witness:
  "fst (TryMigrations (mem_controller 5 10 []) (mem_sys [] 2 3 None)) = None
   \<and> count_list (new_calls (mem_sys [] 2 3 None)
        (snd (TryMigrations (mem_controller 5 10 []) (mem_sys [] 2 3 None)))) DB_Migrate = 3
   \<and> fst (TryMigrations (mem_controller 2 10 []) (mem_sys [] 2 3 None))
       = Some ''creating table: connection refused''
   \<and> new_calls (mem_sys [] 2 3 None)
        (snd (TryMigrations (mem_controller 2 10 []) (mem_sys [] 2 3 None)))
       = [DB_Migrate, Time_Sleep 1000000000, DB_Migrate, Time_Sleep 1000000000]"
proof -
  let ?s = "mem_sys [] 2 3 None"
  let ?c5 = "mem_controller 5 10 []"
  let ?c2 = "mem_controller 2 10 []"
  have e0: "migration_error mem_db 0 (world ?s) = Some ''connection refused''" by code_simp
  have e1: "migration_error mem_db (Suc 0) (world ?s) = Some ''connection refused''" by code_simp
  have e2: "migration_error mem_db (Suc (Suc 0)) (world ?s) = None" by code_simp
  have db: "DatabaseHandler ?c5 = mem_db" "DatabaseHandler ?c2 = mem_db"
    "MaxMigrationAttempts ?c5 = 5" "MaxMigrationAttempts ?c2 = 2"
    "MigrationAttemptSleepDuration ?c2 = 1000000000"
    by (simp_all add: mem_controller_def)
  have two: "nat 2 = Suc (Suc 0)" by simp
  have fails: "\<forall>k<Suc (Suc 0). migration_error mem_db k (world ?s) \<noteq> None"
    using e0 e1 by (auto simp: less_Suc_eq)
  have h1: "(\<forall>k<Suc (Suc 0). migration_error (DatabaseHandler ?c5) k (world ?s) \<noteq> None) \<and>
    migration_error (DatabaseHandler ?c5) (Suc (Suc 0)) (world ?s) = None \<and>
    int (Suc (Suc 0)) < MaxMigrationAttempts ?c5"
    unfolding db using fails e2 by simp
  have h2: "\<forall>k<nat (MaxMigrationAttempts ?c2).
              migration_error (DatabaseHandler ?c2) k (world ?s) \<noteq> None"
    unfolding db two by (rule fails)
  have pos: "0 < MaxMigrationAttempts ?c2" unfolding db by simp
  note r1 = TryMigrations_retries [of "Suc (Suc 0)" ?c5 ?s, THEN conjunct1, THEN mp, OF h1]
  note r2 = TryMigrations_retries [of 0 ?c2 ?s, THEN conjunct2, THEN mp, OF h2]
  have s1: "fst (TryMigrations ?c5 ?s) = None" using r1 by blast
  have s2: "count_list (new_calls ?s (snd (TryMigrations ?c5 ?s))) DB_Migrate = Suc (Suc (Suc 0))"
    using r1 by blast
  have f1: "fst (TryMigrations ?c2 ?s) = map_option (\<lambda>e. ''creating table: '' @ e)
             (migration_error (DatabaseHandler ?c2) (nat (MaxMigrationAttempts ?c2) - 1) (world ?s))"
    using r2 pos by blast
  have f2: "new_calls ?s (snd (TryMigrations ?c2 ?s))
        = concat (replicate (nat (MaxMigrationAttempts ?c2))
                    [DB_Migrate, Time_Sleep (MigrationAttemptSleepDuration ?c2)])"
    using r2 by blast
  have "fst (TryMigrations ?c2 ?s) = Some ''creating table: connection refused''"
    unfolding f1 db two using e1 by simp
  moreover have "new_calls ?s (snd (TryMigrations ?c2 ?s))
       = [DB_Migrate, Time_Sleep 1000000000, DB_Migrate, Time_Sleep 1000000000]"
    unfolding f2 db two by simp
  moreover have "count_list (new_calls ?s (snd (TryMigrations ?c5 ?s))) DB_Migrate = 3"
    unfolding s2 by simp
  ultimately show ?thesis using s1 by blast
qed

text \<open>
  Claim C5, as the code has it.  \<^verbatim>\<open>TryMigrations\<close> has the single result \<^verbatim>\<open>error\<close>: on
  success it returns nil, and the count that \<^verbatim>\<open>Migrate\<close> returned goes to the logger,
  as \<^verbatim>\<open>num-applied\<close> in the entry \<^verbatim>\<open>db-migration-complete\<close>, which is the last event of the
  call.
\<close>

theorem TryMigrations_logs_count:
  assumes "\<forall>k<M. migration_error (DatabaseHandler c) k (world s) \<noteq> None"
    and "migration_error (DatabaseHandler c) M (world s) = None"
    and "int M < MaxMigrationAttempts c"
  shows "fst (TryMigrations c s) = None \<and>
         last (calls (snd (TryMigrations c s)))
           = Logger_Info ''db-migration-complete''
               [(''num-applied'', LInt (migration_count (DatabaseHandler c) M (world s)))]"
  using TryMigrations_success [OF assms] by simp

theorem TryMigrations_logs_count_witness:
  "fst (TryMigrations (mem_controller 5 10 []) (mem_sys [] 1 3 None)) = None \<and>
   last (calls (snd (TryMigrations (mem_controller 5 10 []) (mem_sys [] 1 3 None))))
     = Logger_Info ''db-migration-complete'' [(''num-applied'', LInt 3)]"
proof -
  let ?s = "mem_sys [] 1 3 None"
  let ?c = "mem_controller 5 10 []"
  have db: "DatabaseHandler ?c = mem_db" "MaxMigrationAttempts ?c = 5"
    by (simp_all add: mem_controller_def)
  have e0: "migration_error mem_db 0 (world ?s) = Some ''connection refused''" by code_simp
  have e1: "migration_error mem_db (Suc 0) (world ?s) = None" by code_simp
  have cnt: "migration_count mem_db (Suc 0) (world ?s) = 3" by code_simp
  have h1: "\<forall>k<Suc 0. migration_error (DatabaseHandler ?c) k (world ?s) \<noteq> None"
    unfolding db using e0 by simp
  have h2: "migration_error (DatabaseHandler ?c) (Suc 0) (world ?s) = None"
    unfolding db by (rule e1)
  have h3: "int (Suc 0) < MaxMigrationAttempts ?c"
    unfolding db by simp
  from TryMigrations_logs_count [OF h1 h2 h3] show ?thesis
    unfolding db cnt .
qed

text \<open>
  The claim C5 as it is written fails: two stores that apply 3 and 7 changes give the
  caller the same result, nil, so the result does not carry the count.
\<close>

theorem TryMigrations_count_not_returned:
  "migration_count mem_db 0 (world (mem_sys [] 0 3 None)) = 3 \<and>
   migration_count mem_db 0 (world (mem_sys [] 0 7 None)) = 7 \<and>
   fst (TryMigrations (mem_controller 5 10 []) (mem_sys [] 0 3 None)) = None \<and>
   fst (TryMigrations (mem_controller 5 10 []) (mem_sys [] 0 7 None)) = None"
  by code_simp

subsection \<open>Propagation of errors\<close>

text \<open>
  The single-shot operations and each step of an attempt return the error of the store,
  prefixed with the name of the operation.
\<close>

lemma ReleaseSubnetLease_error:
  "fst (DeleteEntry (DatabaseHandler c) (UnderlayIP_c c) (world s)) = Some e \<Longrightarrow>
   fst (ReleaseSubnetLease c s) = Some (''releasing lease: '' @ e)"
  by (auto simp: ReleaseSubnetLease_def call_def fmt_Errorf_def fmt_verb_s_def split: prod.splits option.splits)

lemma RoutableLeases_error:
  "snd (fst (All_db (DatabaseHandler c) (world s))) = Some e \<Longrightarrow>
   fst (RoutableLeases c s) = ([], Some (''getting all leases: '' @ e))"
  by (auto simp: RoutableLeases_def call_def fmt_Errorf_def fmt_verb_s_def split: prod.splits option.splits)

lemma tryAcquireLease_list_error:
  "snd (fst (All_db (DatabaseHandler c) (world s))) = Some e \<Longrightarrow>
   fst (tryAcquireLease net c u s) = (None, Some (''getting all subnets: '' @ e))"
  by (auto simp: tryAcquireLease_def call_def fmt_Errorf_def fmt_verb_s_def split: prod.splits option.splits)

text \<open>
  The lookup of \<^verbatim>\<open>AcquireSubnetLease\<close> is the exception: its error is assigned to
  \<^verbatim>\<open>err\<close> and never tested, and the first attempt overwrites it.
\<close>

lemma AcquireSubnetLease_lookup_error_lost:
  assumes "LeaseForUnderlayIP (DatabaseHandler c) u (world s) = ((None, Some e), w')"
    and "0 < AcquireSubnetLeaseAttempts c"
    and "fst (tryAcquireLease net c u (after_lookup c u s)) = (lease, None)"
  shows "fst (AcquireSubnetLease net c u s) = (lease, None)"
proof -
  have "fst (fst (LeaseForUnderlayIP (DatabaseHandler c) u (world s))) = None"
    using assms(1) by simp
  then have "AcquireSubnetLease net c u s =
     AcquireSubnetLease_loop net c u 0 None (Some e) (after_lookup c u s)"
    using assms(1) by (simp add: AcquireSubnetLease_no_lease)
  with assms(2,3) show ?thesis
    by (auto simp: AcquireSubnetLease_loop.simps [of net c u 0] split: prod.splits)
qed

text \<open>
  Claim C6, at the input where the code departs from it.  The store answers the lookup
  with the error \<^verbatim>\<open>connection refused\<close> and no lease, and the bound is 10: the first
  attempt succeeds, and \<^verbatim>\<open>AcquireSubnetLease\<close> returns the new lease with a nil error.
  The error of the lookup reaches neither the caller nor the log.
\<close>

theorem AcquireSubnetLease_drops_lookup_error:
  "fst (LeaseForUnderlayIP mem_db ''10.0.0.5''
          (world (mem_sys [] 0 0 (Some ''connection refused''))))
     = (None, Some ''connection refused'')
   \<and> AcquireSubnetLease mem_net (mem_controller 5 10 [''10.255.0.0/24'', ''10.255.1.0/24''])
       ''10.0.0.5'' (mem_sys [] 0 0 (Some ''connection refused''))
     = ((Some lease1, None),
        \<lparr>world = \<lparr>rows = [lease1], migrate_failures = 0, pending_changes = 0,
                   lookup_failure = Some ''connection refused''\<rparr>,
         calls = [DB_LeaseForUnderlayIP ''10.0.0.5'', DB_All, Pool_GetAvailable [],
                  HW_GenerateForVTEP [10, 255, 0, 0], DB_AddEntry lease1,
                  Logger_Info ''lease-acquired'' [(''lease'', LLease (Some lease1))]]\<rparr>)"
  by code_simp

section \<open>Properties of the veth manager\<close>

subsection \<open>Auxiliary facts\<close>

lemma remove1_filter_length:
  "a \<in> set xs \<Longrightarrow> P a \<Longrightarrow> Suc (length (filter P (remove1 a xs))) = length (filter P xs)"
  by (induction xs) auto

lemma in_family_V6: "in_family FAMILY_V6 = is_ipv6"
  by (rule ext) simp

lemma removeAddrs_other:
  "removeAddrs p as k = (r, k') \<Longrightarrow> q \<noteq> (Namespace p, Link p) \<Longrightarrow> devices k' q = devices k q"
proof (induction as arbitrary: k)
  case Nil
  then show ?case by simp
next
  case (Cons a as)
  show ?case
  proof (cases "AddrDel (Namespace p) (Link p) a k")
    case (Inl e)
    with Cons.prems show ?thesis by simp
  next
    case (Inr k1)
    then have "devices k1 q = devices k q"
      using Cons.prems(2) by (auto simp: AddrDel_def split: option.splits if_splits)
    moreover have "removeAddrs p as k1 = (r, k')"
      using Cons.prems(1) Inr by simp
    ultimately show ?thesis
      using Cons.IH [OF _ Cons.prems(2)] by simp
  qed
qed

lemma removeAddrs_count:
  "removeAddrs p as k = (None, k') \<Longrightarrow> devices k (Namespace p, Link p) = Some d \<Longrightarrow>
   \<forall>a\<in>set as. P a \<Longrightarrow>
   \<exists>d'. devices k' (Namespace p, Link p) = Some d' \<and>
        length (filter P (Addrs d')) + length as = length (filter P (Addrs d))"
proof (induction as arbitrary: k d)
  case Nil
  then show ?case by simp
next
  case (Cons a as)
  show ?case
  proof (cases "AddrDel (Namespace p) (Link p) a k")
    case (Inl e)
    with Cons.prems(1) show ?thesis by simp
  next
    case (Inr k1)
    with Cons.prems(2) have mem: "a \<in> set (Addrs d)"
      and k1: "devices k1 (Namespace p, Link p) = Some (d\<lparr>Addrs := remove1 a (Addrs d)\<rparr>)"
      by (auto simp: AddrDel_def split: if_splits)
    have rest: "removeAddrs p as k1 = (None, k')"
      using Cons.prems(1) Inr by simp
    have "\<forall>a\<in>set as. P a" "P a"
      using Cons.prems(3) by simp_all
    from Cons.IH [OF rest k1 this(1)] obtain d' where
      d': "devices k' (Namespace p, Link p) = Some d'"
      "length (filter P (Addrs d')) + length as = length (filter P (remove1 a (Addrs d)))"
      by auto
    with remove1_filter_length [of a "Addrs d" P, OF mem \<open>P a\<close>] show ?thesis by simp
  qed
qed

lemma removeIPv6Addresses_clears:
  assumes "removeIPv6Addresses p k = (None, k')"
  shows "AddrList (Namespace p) (Link p) FAMILY_V6 k' = Inr []"
proof -
  from assms obtain d where d: "devices k (Namespace p, Link p) = Some d"
    and run: "removeAddrs p (filter is_ipv6 (Addrs d)) k = (None, k')"
    by (auto simp: removeIPv6Addresses_def LinkByName_def AddrList_def in_family_V6
             split: option.splits)
  have "\<forall>a\<in>set (filter is_ipv6 (Addrs d)). is_ipv6 a" by simp
  from removeAddrs_count [OF run d this] obtain d' where
    "devices k' (Namespace p, Link p) = Some d'" "filter is_ipv6 (Addrs d') = []"
    by auto
  then show ?thesis by (simp add: AddrList_def in_family_V6)
qed

lemma removeIPv6Addresses_noop:
  "AddrList (Namespace p) (Link p) FAMILY_V6 k = Inr [] \<Longrightarrow> removeIPv6Addresses p k = (None, k)"
  by (auto simp: removeIPv6Addresses_def LinkByName_def AddrList_def split: option.splits)

lemma removeIPv6Addresses_preserves:
  assumes "removeIPv6Addresses p k = (None, k')"
    and "AddrList ns l FAMILY_V6 k = Inr []"
  shows "AddrList ns l FAMILY_V6 k' = Inr []"
proof (cases "(ns, l) = (Namespace p, Link p)")
  case True
  with assms(2) have "removeIPv6Addresses p k = (None, k)"
    by (simp add: removeIPv6Addresses_noop)
  with assms show ?thesis by simp
next
  case False
  from assms(1) obtain as where "removeAddrs p as k = (None, k')"
    by (auto simp: removeIPv6Addresses_def split: sum.splits)
  from removeAddrs_other [OF this False] assms(2) show ?thesis
    by (simp add: AddrList_def)
qed


lemmas veth_defs = test_kernel_def test_manager_def test_pair_def kernel_with_pair_def

subsection \<open>Addresses\<close>




text \<open>
  Claim C8.  When the container namespace already holds a link of the requested name,
  \<^verbatim>\<open>createPair\<close> of an initialized manager fails with the message
  \<^verbatim>\<open>container veth name provided (<name>) already exists\<close> and leaves the kernel as it
  was: no device is created.
\<close>

theorem CreatePair_name_collision:
  assumes "HostNS m = Some h" and "ContainerNS m = Some cn"
    and "devices k (cn, ifname) \<noteq> None"
  shows "CreatePair m ifname mtu k =
           (Inl (''container veth name provided ('' @ ifname @ '') already exists''), k)"
  using assms by (simp add: CreatePair_def)

theorem CreatePair_name_collision_witness:
  "devices kernel_with_pair (''/var/run/netns/container'', ''eth0'') \<noteq> None
   \<and> CreatePair test_manager ''eth0'' 1500 kernel_with_pair
      = (Inl ''container veth name provided (eth0) already exists'', kernel_with_pair)"
proof -
  have h: "HostNS test_manager = Some ''/var/run/netns/host''"
    and c: "ContainerNS test_manager = Some ''/var/run/netns/container''"
    by (simp_all add: test_manager_def)
  have d: "devices kernel_with_pair (''/var/run/netns/container'', ''eth0'') \<noteq> None"
    by (simp add: veth_defs CreatePair_def)
  from CreatePair_name_collision [OF h c d, of 1500] d show ?thesis by simp
qed

text \<open>
  Claim C9.  After a successful \<^verbatim>\<open>disableIPv6\<close> the list of addresses filtered to the
  IPv6 family is empty on both ends, however many IPv6 addresses they carried, and a
  second call succeeds and changes nothing; on a pair whose two ends carry no IPv6
  address the call succeeds and leaves the kernel as it was.
\<close>

theorem DisableIPv6_removes_all:
  "(DisableIPv6 pair k = (None, k') \<longrightarrow>
      AddrList (Namespace (Host pair)) (Link (Host pair)) FAMILY_V6 k' = Inr [] \<and>
      AddrList (Namespace (Container pair)) (Link (Container pair)) FAMILY_V6 k' = Inr [] \<and>
      DisableIPv6 pair k' = (None, k'))
   \<and>
   (AddrList (Namespace (Host pair)) (Link (Host pair)) FAMILY_V6 k = Inr [] \<and>
    AddrList (Namespace (Container pair)) (Link (Container pair)) FAMILY_V6 k = Inr [] \<longrightarrow>
      DisableIPv6 pair k = (None, k))"
proof -
  have noop: "DisableIPv6 pair k0 = (None, k0)"
    if "AddrList (Namespace (Host pair)) (Link (Host pair)) FAMILY_V6 k0 = Inr []"
      and "AddrList (Namespace (Container pair)) (Link (Container pair)) FAMILY_V6 k0 = Inr []"
    for k0
    using that by (simp add: DisableIPv6_def removeIPv6Addresses_noop)
  have clears: "AddrList (Namespace (Host pair)) (Link (Host pair)) FAMILY_V6 k' = Inr [] \<and>
      AddrList (Namespace (Container pair)) (Link (Container pair)) FAMILY_V6 k' = Inr []"
    if run: "DisableIPv6 pair k = (None, k')"
  proof -
    from run obtain k1 where
      h: "removeIPv6Addresses (Host pair) k = (None, k1)" and
      c: "removeIPv6Addresses (Container pair) k1 = (None, k')"
      by (auto simp: DisableIPv6_def split: prod.splits option.splits)
    have "AddrList (Namespace (Host pair)) (Link (Host pair)) FAMILY_V6 k1 = Inr []"
      by (rule removeIPv6Addresses_clears [OF h])
    then have "AddrList (Namespace (Host pair)) (Link (Host pair)) FAMILY_V6 k' = Inr []"
      by (rule removeIPv6Addresses_preserves [OF c])
    moreover have
      "AddrList (Namespace (Container pair)) (Link (Container pair)) FAMILY_V6 k' = Inr []"
      by (rule removeIPv6Addresses_clears [OF c])
    ultimately show ?thesis by blast
  qed
  from noop [of k] noop [of k'] clears show ?thesis by blast
qed

theorem DisableIPv6_removes_all_witness:
  "AddrList ''/var/run/netns/host'' ''veth0a1b2c3d'' FAMILY_V6 kernel_with_pair
      = Inr [\<lparr>IPNet = ''fe80::1/64'', Peer = None, Scope = SCOPE_LINK\<rparr>]
   \<and> fst (DisableIPv6 test_pair kernel_with_pair) = None
   \<and> AddrList ''/var/run/netns/host'' ''veth0a1b2c3d'' FAMILY_V6
        (snd (DisableIPv6 test_pair kernel_with_pair)) = Inr []
   \<and> AddrList ''/var/run/netns/container'' ''eth0'' FAMILY_V6
        (snd (DisableIPv6 test_pair kernel_with_pair)) = Inr []
   \<and> DisableIPv6 test_pair (snd (DisableIPv6 test_pair kernel_with_pair))
      = (None, snd (DisableIPv6 test_pair kernel_with_pair))"
proof -
  let ?k' = "snd (DisableIPv6 test_pair kernel_with_pair)"
  have before: "AddrList ''/var/run/netns/host'' ''veth0a1b2c3d'' FAMILY_V6 kernel_with_pair
      = Inr [\<lparr>IPNet = ''fe80::1/64'', Peer = None, Scope = SCOPE_LINK\<rparr>]"
    by code_simp
  have ok: "fst (DisableIPv6 test_pair kernel_with_pair) = None" by code_simp
  then have run: "DisableIPv6 test_pair kernel_with_pair = (None, ?k')"
    by (simp add: prod_eq_iff)
  have ends: "Namespace (Host test_pair) = ''/var/run/netns/host''"
    "Link (Host test_pair) = ''veth0a1b2c3d''"
    "Namespace (Container test_pair) = ''/var/run/netns/container''"
    "Link (Container test_pair) = ''eth0''"
    by (simp_all add: test_pair_def)
  note cleared =
    DisableIPv6_removes_all [of test_pair kernel_with_pair ?k', THEN conjunct1, THEN mp, OF run]
  have host: "AddrList (Namespace (Host test_pair)) (Link (Host test_pair)) FAMILY_V6 ?k' = Inr []"
    and cont: "AddrList (Namespace (Container test_pair)) (Link (Container test_pair)) FAMILY_V6 ?k'
                 = Inr []"
    using cleared by blast+
  have again: "DisableIPv6 test_pair ?k' = (None, ?k')"
    using DisableIPv6_removes_all [of test_pair ?k' ?k', THEN conjunct2] host cont by blast
  from before ok host cont again show ?thesis
    unfolding ends by blast
qed


end
